theory Spec2Isabelle
  imports Main "HOL-Library.Sublist" "HOL-Library.Word"
begin

unbundle bit_operations_syntax

section \<open>Text primitives of the host language\<close>

text \<open>
  A Python \<open>str\<close> is modelled as a \<open>string\<close>: each \<open>char\<close> is one code point in the
  range U+0000..U+00FF. In that range the decimal digits that the pattern class
  \<^verbatim>\<open>\d\<close> accepts (and that \<^verbatim>\<open>int()\<close> reads) are exactly \<^verbatim>\<open>0\<close>..\<^verbatim>\<open>9\<close>, and the white
  space that \<^verbatim>\<open>\s\<close> and \<^verbatim>\<open>str.strip()\<close> accept is the set given by \<open>is_space\<close>.
  Python integers are unbounded, so they are \<open>int\<close>.
\<close>

definition is_digit :: "char \<Rightarrow> bool" where
  "is_digit c = (c \<in> set ''0123456789'')"

definition is_space :: "char \<Rightarrow> bool" where
  "is_space c = (c \<in> {CHR 0x09, CHR 0x0A, CHR 0x0B, CHR 0x0C, CHR 0x0D,
                       CHR 0x1C, CHR 0x1D, CHR 0x1E, CHR 0x1F, CHR 0x20,
                       CHR 0x85, CHR 0xA0})"

text \<open>\<^verbatim>\<open>int(s)\<close> on a non-empty run of decimal digits.\<close>

definition digit_val :: "char \<Rightarrow> int" where
  "digit_val c = of_char c - 48"

definition int_of_digits :: "string \<Rightarrow> int" where
  "int_of_digits ds = foldl (\<lambda>a c. 10 * a + digit_val c) 0 ds"

text \<open>A literal at the head of the text: the rest of the text after it, if it is there.\<close>

fun lit :: "string \<Rightarrow> string \<Rightarrow> string option" where
  "lit [] s = Some s"
| "lit (p # ps) [] = None"
| "lit (p # ps) (c # cs) = (if p = c then lit ps cs else None)"

text \<open>
  \<^verbatim>\<open>\d+\<close> at the head of the text, greedy: the digits and the rest. In every pattern
  below the run of digits is followed by a character that is not a digit or by the end
  of the pattern, so giving digits back never makes a failed match succeed.
\<close>

definition digits1 :: "string \<Rightarrow> (string \<times> string) option" where
  "digits1 s = (if takeWhile is_digit s = [] then None
                else Some (takeWhile is_digit s, dropWhile is_digit s))"

text \<open>
  \<^verbatim>\<open>re.search\<close>: the match at the leftmost position where the pattern matches. The
  argument \<open>m\<close> matches the pattern at the head of a text.
\<close>

fun re_search :: "(string \<Rightarrow> 'a option) \<Rightarrow> string \<Rightarrow> 'a option" where
  "re_search m [] = m []"
| "re_search m (c # cs) = (case m (c # cs) of Some g \<Rightarrow> Some g | None \<Rightarrow> re_search m cs)"

text \<open>\<^verbatim>\<open>needle in haystack\<close> on strings.\<close>

fun contains :: "string \<Rightarrow> string \<Rightarrow> bool" where
  "contains needle [] = (needle = [])"
| "contains needle (c # cs) = (prefix needle (c # cs) \<or> contains needle cs)"

text \<open>\<^verbatim>\<open>s.split("\n")\<close> and \<^verbatim>\<open>"\n".join(xs)\<close>.\<close>

fun split_nl :: "string \<Rightarrow> string list" where
  "split_nl [] = [[]]"
| "split_nl (c # cs) =
     (if c = CHR 0x0A then [] # split_nl cs
      else (case split_nl cs of [] \<Rightarrow> [[c]] | l # ls \<Rightarrow> (c # l) # ls))"

fun join_nl :: "string list \<Rightarrow> string" where
  "join_nl [] = []"
| "join_nl [x] = x"
| "join_nl (x # y # ys) = x @ CHR 0x0A # join_nl (y # ys)"

section \<open>Diagnostic classifier (\<^verbatim>\<open>cleanStderr\<close>)\<close>

definition ENC_TO :: string where "ENC_TO = ''ENC_TO''"
definition BEGIN_DECRYPTION :: string where "BEGIN_DECRYPTION = ''BEGIN_DECRYPTION''"
definition END_DECRYPTION :: string where "END_DECRYPTION = ''END_DECRYPTION''"
definition NO_SECKEY :: string where "NO_SECKEY = ''NO_SECKEY''"

text \<open>
  \<^verbatim>\<open>CHAN_ERROR_PAT = r'gpg: DBG: chan_\d+ (?:<-|->) ERR (\d+)'\<close> at the head of a text;
  the result is group 1.
\<close>

definition CHAN_ERROR_PAT :: "string \<Rightarrow> string option" where
  "CHAN_ERROR_PAT s =
     (case lit ''gpg: DBG: chan_'' s of None \<Rightarrow> None | Some r1 \<Rightarrow>
      case digits1 r1 of None \<Rightarrow> None | Some (n, r2) \<Rightarrow>
      case lit '' '' r2 of None \<Rightarrow> None | Some r3 \<Rightarrow>
      case (case lit ''<-'' r3 of Some r \<Rightarrow> Some r | None \<Rightarrow> lit ''->'' r3) of
        None \<Rightarrow> None | Some r4 \<Rightarrow>
      case lit '' ERR '' r4 of None \<Rightarrow> None | Some r5 \<Rightarrow>
      case digits1 r5 of None \<Rightarrow> None | Some (code, r6) \<Rightarrow> Some code)"

text \<open>\<^verbatim>\<open>ERROR_CODE_PAT = r'(?:ERROR pkdecrypt_failed) (\d+)'\<close>; the result is group 1.\<close>

definition ERROR_CODE_PAT :: "string \<Rightarrow> string option" where
  "ERROR_CODE_PAT s =
     (case lit ''ERROR pkdecrypt_failed '' s of None \<Rightarrow> None | Some r1 \<Rightarrow>
      case digits1 r1 of None \<Rightarrow> None | Some (code, r2) \<Rightarrow> Some code)"

text \<open>
  \<^verbatim>\<open>re.match(GPG_STATUS_PAT, line)\<close> with \<^verbatim>\<open>GPG_STATUS_PAT = r'\[GNUPG:\](.*)'\<close>: the
  pattern is tried at the start of the line only, and \<^verbatim>\<open>(.*)\<close> matches any rest, the
  empty one too.
\<close>

definition GPG_STATUS_match :: "string \<Rightarrow> bool" where
  "GPG_STATUS_match line = (lit ''[GNUPG:]'' line \<noteq> None)"

text \<open>
  The body of the loop of \<^verbatim>\<open>cleanStderr\<close> on one line. The state is the pair of the
  local variables \<^verbatim>\<open>preserve\<close> and \<^verbatim>\<open>error_code\<close>; the flag says whether the loop goes
  on (\<open>Continue\<close>) or was left by \<^verbatim>\<open>break\<close>.
\<close>

datatype flow = Continue | Break

type_synonym cs_state = "string list \<times> int"

definition loop_body :: "cs_state \<Rightarrow> string \<Rightarrow> flow \<times> cs_state" where
  "loop_body st line =
     (case st of (preserve, error_code) \<Rightarrow>
      (case re_search CHAN_ERROR_PAT line of
         Some g \<Rightarrow> (Continue, preserve, int_of_digits g AND 0xFFFF)
       | None \<Rightarrow>
         if GPG_STATUS_match line then
           (case re_search ERROR_CODE_PAT line of
              Some g \<Rightarrow> (Continue, preserve, int_of_digits g AND 0xFFFF)
            | None \<Rightarrow>
              if contains NO_SECKEY line then (Continue, preserve, 17)
              else if contains ENC_TO line then (Continue, [], error_code)
              else if contains BEGIN_DECRYPTION line
                then (Continue, drop (length preserve - 1) preserve, error_code)
              else if contains END_DECRYPTION line then (Break, preserve, error_code)
              else (Continue, preserve, error_code))
         else if preserve \<noteq> [] \<and> prefix ''  '' line
           then (Continue, butlast preserve @ [last preserve @ CHR 0x0A # line], error_code)
         else (Continue, preserve @ [line], error_code)))"

fun loop :: "cs_state \<Rightarrow> string list \<Rightarrow> cs_state" where
  "loop st [] = st"
| "loop st (line # rest) =
     (case loop_body st line of
        (Break, st') \<Rightarrow> st'
      | (Continue, st') \<Rightarrow> loop st' rest)"

definition cleanLines :: "string list \<Rightarrow> string \<times> int" where
  "cleanLines ls =
     (case loop ([], 0) ls of (preserve, error_code) \<Rightarrow>
        (join_nl (filter (\<lambda>x. \<not> prefix ''gpg: DBG:'' x) preserve), error_code))"

definition cleanStderr :: "string \<Rightarrow> string \<times> int" where
  "cleanStderr stderr = cleanLines (split_nl stderr)"


subsection \<open>Classes of lines, as the branches of the loop body tell them apart\<close>

text \<open>
  Each predicate is the guard under which the loop body takes the branch of that name:
  the guards of the branches tried before it are false and its own is true.
\<close>

definition is_chan_error :: "string \<Rightarrow> bool" where
  "is_chan_error line = (re_search CHAN_ERROR_PAT line \<noteq> None)"

definition is_status :: "string \<Rightarrow> bool" where
  "is_status line = (\<not> is_chan_error line \<and> GPG_STATUS_match line)"

definition is_decrypt_error :: "string \<Rightarrow> bool" where
  "is_decrypt_error line = (is_status line \<and> re_search ERROR_CODE_PAT line \<noteq> None)"

definition is_no_seckey :: "string \<Rightarrow> bool" where
  "is_no_seckey line = (is_status line \<and> \<not> is_decrypt_error line \<and> contains NO_SECKEY line)"

definition is_enc_to :: "string \<Rightarrow> bool" where
  "is_enc_to line = (is_status line \<and> \<not> is_decrypt_error line \<and> \<not> contains NO_SECKEY line
     \<and> contains ENC_TO line)"

definition is_begin_decryption :: "string \<Rightarrow> bool" where
  "is_begin_decryption line = (is_status line \<and> \<not> is_decrypt_error line
     \<and> \<not> contains NO_SECKEY line \<and> \<not> contains ENC_TO line \<and> contains BEGIN_DECRYPTION line)"

definition is_end_decryption :: "string \<Rightarrow> bool" where
  "is_end_decryption line = (is_status line \<and> \<not> is_decrypt_error line
     \<and> \<not> contains NO_SECKEY line \<and> \<not> contains ENC_TO line \<and> \<not> contains BEGIN_DECRYPTION line
     \<and> contains END_DECRYPTION line)"

lemmas line_class_defs = is_chan_error_def is_status_def is_decrypt_error_def is_no_seckey_def
  is_enc_to_def is_begin_decryption_def is_end_decryption_def

lemmas marker_defs = ENC_TO_def BEGIN_DECRYPTION_def END_DECRYPTION_def NO_SECKEY_def

lemmas pattern_defs = CHAN_ERROR_PAT_def ERROR_CODE_PAT_def GPG_STATUS_match_def digits1_def
  is_digit_def

section \<open>Environment composer (\<^verbatim>\<open>setFlags\<close>)\<close>

text \<open>
  The pattern \<^verbatim>\<open>r'--%s(?:(?:=|\s+)\S*)?' % flag\<close> at the head of a text; the result is the
  rest of the text after the match. The flag name is put into the pattern as it is; the
  names the program uses (\<^verbatim>\<open>status-fd\<close>, \<^verbatim>\<open>debug\<close>) have no character that is special
  in a pattern, so the name is a literal. After the literal the optional group is tried
  first (it is greedy): an \<^verbatim>\<open>=\<close> or the longest run of white space, then the longest
  run of characters that are not white space. The group can always finish once it has
  begun, and the pattern ends with it, so the match never backtracks.
\<close>

definition flag_match :: "string \<Rightarrow> string \<Rightarrow> string option" where
  "flag_match flag s =
     (case lit (''--'' @ flag) s of
        None \<Rightarrow> None
      | Some r \<Rightarrow>
          (case r of
             [] \<Rightarrow> Some []
           | c # cs \<Rightarrow>
               if c = CHR ''='' then Some (dropWhile (\<lambda>x. \<not> is_space x) cs)
               else if is_space c
                 then Some (dropWhile (\<lambda>x. \<not> is_space x) (dropWhile is_space (c # cs)))
               else Some (c # cs)))"

text \<open>
  \<^verbatim>\<open>re.sub(pattern, '', opts)\<close>: the text is read from the left; where the pattern
  matches, the match is left out and reading goes on after it, elsewhere the character is
  kept. A match is never empty (it has the two dashes), so the special treatment of empty
  matches plays no part.
\<close>

function re_sub_flag :: "string \<Rightarrow> string \<Rightarrow> string" where
  "re_sub_flag flag [] = []"
| "re_sub_flag flag (c # cs) =
     (case flag_match flag (c # cs) of
        Some r \<Rightarrow> re_sub_flag flag r
      | None \<Rightarrow> c # re_sub_flag flag cs)"
  by pat_completeness auto
termination
proof (relation "measure (\<lambda>(flag, s). length s)")
  show "wf (measure (\<lambda>(flag, s). length s))" by simp
next
  fix flag :: string and c :: char and cs r :: string
  assume m: "flag_match flag (c # cs) = Some r"
  have l: "\<And>p s t. lit p s = Some t \<Longrightarrow> length t + length p = length s"
  proof -
    fix p s t show "lit p s = Some t \<Longrightarrow> length t + length p = length s"
      by (induction p s rule: lit.induct) (auto split: if_splits)
  qed
  have d: "\<And>P (xs :: string). length (dropWhile P xs) \<le> length xs"
    by (simp add: length_dropWhile_le)
  from m obtain t where t: "lit (''--'' @ flag) (c # cs) = Some t" and rt: "length r \<le> length t"
    using d [of "\<lambda>x. \<not> is_space x"] d [of is_space]
    by (auto simp: flag_match_def split: option.splits list.splits if_splits
        intro: le_trans le_SucI)
  from l [OF t] rt have "length r < length (c # cs)" by simp
  then show "((flag, r), (flag, c # cs)) \<in> measure (\<lambda>(flag, s). length s)" by simp
next
  fix flag :: string and c :: char and cs :: string
  show "((flag, cs), (flag, c # cs)) \<in> measure (\<lambda>(flag, s). length s)" by simp
qed

text \<open>\<^verbatim>\<open>str.strip()\<close>: white space is taken off both ends.\<close>

definition strip :: "string \<Rightarrow> string" where
  "strip s = rev (dropWhile is_space (rev (dropWhile is_space s)))"

text \<open>
  \<^verbatim>\<open>shlex.quote\<close> of the standard library: the empty string becomes two quotes, a string
  of safe characters (\<^verbatim>\<open>[\w@%+=:,./-]\<close>, ASCII) is left as it is, any other string is put
  in single quotes with each single quote inside replaced by \<^verbatim>\<open>'"'"'\<close>.
\<close>

definition is_safe_char :: "char \<Rightarrow> bool" where
  "is_safe_char c =
     (c \<in> set ''abcdefghijklmnopqrstuvwxyzABCDEFGHIJKLMNOPQRSTUVWXYZ0123456789_@%+=:,./-'')"

definition shlex_quote :: "string \<Rightarrow> string" where
  "shlex_quote s =
     (if s = [] then [CHR 0x27, CHR 0x27]
      else if list_all is_safe_char s then s
      else CHR 0x27 #
        concat (map (\<lambda>c. if c = CHR 0x27 then [CHR 0x27, CHR 0x22, CHR 0x27, CHR 0x22, CHR 0x27]
                          else [c]) s)
        @ [CHR 0x27])"

text \<open>
  One turn of the loop of \<^verbatim>\<open>setFlags\<close>, for one item \<open>(flag, value)\<close> of the
  dictionary, and the whole function. The environment is a map from names to values; the
  dictionary of flags is the list of its items in the order they were put in, which is
  the order in which Python goes through them.
\<close>

definition set_flag :: "string \<Rightarrow> string \<times> string \<Rightarrow> string" where
  "set_flag opts item =
     (case item of (flag, val) \<Rightarrow>
        ''--'' @ flag @ (if val \<noteq> [] then CHR ''='' # shlex_quote val else val)
          @ '' '' @ re_sub_flag flag opts)"

text \<open>\<^verbatim>\<open>env.get(key, default)\<close> on a dictionary.\<close>

definition env_get :: "(string \<rightharpoonup> string) \<Rightarrow> string \<Rightarrow> string \<Rightarrow> string" where
  "env_get env key dflt = (case env key of None \<Rightarrow> dflt | Some v \<Rightarrow> v)"

definition setFlags :: "(string \<rightharpoonup> string) \<Rightarrow> (string \<times> string) list \<Rightarrow> (string \<rightharpoonup> string)" where
  "setFlags env flags =
     (let opts = env_get env ''PASSWORD_STORE_GPG_OPTS'' []
      in env(''PASSWORD_STORE_GPG_OPTS'' \<mapsto> strip (foldl set_flag opts flags)))"

text \<open>The flags that the program sets: \<^verbatim>\<open>{'status-fd': '2', 'debug': 'ipc'}\<close>.\<close>

definition REQUIRED_FLAGS :: "(string \<times> string) list" where
  "REQUIRED_FLAGS = [(''status-fd'', ''2''), (''debug'', ''ipc'')]"

text \<open>
  The number of places in a text at which a given text begins: the occurrences of an
  option \<^verbatim>\<open>--name\<close> in an option string.
\<close>

fun occurrences :: "string \<Rightarrow> string \<Rightarrow> nat" where
  "occurrences needle [] = (if needle = [] then 1 else 0)"
| "occurrences needle (c # cs) =
     (if prefix needle (c # cs) then 1 else 0) + occurrences needle cs"

text \<open>
  An option string in which every occurrence of the needle begins a word: it stands at
  the start of the string or right after a white-space character. The flag says whether
  the place before the text is such a place.
\<close>

fun placed :: "bool \<Rightarrow> string \<Rightarrow> string \<Rightarrow> bool" where
  "placed b needle [] = True"
| "placed b needle (c # cs) = ((prefix needle (c # cs) \<longrightarrow> b) \<and> placed (is_space c) needle cs)"

text \<open>
  The same with a second flag that says whether an occurrence is allowed at such a place
  at all: with it off, the text has no occurrence of the needle.
\<close>

fun sited :: "bool \<Rightarrow> bool \<Rightarrow> string \<Rightarrow> string \<Rightarrow> bool" where
  "sited a b needle [] = True"
| "sited a b needle (c # cs) =
     ((prefix needle (c # cs) \<longrightarrow> a \<and> b) \<and> sited a (is_space c) needle cs)"

text \<open>A text without white space.\<close>

definition ws_free :: "string \<Rightarrow> bool" where
  "ws_free q = (\<forall>c\<in>set q. \<not> is_space c)"

section \<open>Requests and the command translator\<close>

text \<open>
  A decoded message is a JSON value as \<^verbatim>\<open>json.loads\<close> returns it: \<^verbatim>\<open>None\<close>, a
  \<^verbatim>\<open>bool\<close>, an \<^verbatim>\<open>int\<close>, a \<^verbatim>\<open>str\<close>, a \<^verbatim>\<open>list\<close> or a \<^verbatim>\<open>dict\<close> with string keys (the
  list of its items in insertion order). Floating-point numbers are not represented.
  The exceptions that the program can raise are the values of \<open>error\<close>; \<open>Unmodelled\<close>
  stands for an input on which the model says nothing (a float, or text beyond U+00FF).
\<close>

datatype json = JNull | JBool bool | JInt int | JStr string | JArr "json list"
  | JObj "(string \<times> json) list"

datatype error = IndexError | TypeError | KeyError | StructError | UnicodeDecodeError
  | JSONDecodeError | RecursionError | Unmodelled

definition COMMAND :: string where "COMMAND = ''pass''"
definition COMMAND_ARGS :: "string list" where "COMMAND_ARGS = []"
definition VERSION :: string where "VERSION = ''_VERSIONHOLDER_''"

text \<open>\<^verbatim>\<open>xs[i]\<close> on a list: an index past the end raises \<^verbatim>\<open>IndexError\<close>.\<close>

definition item :: "'a list \<Rightarrow> nat \<Rightarrow> error + 'a" where
  "item xs i = (if i < length xs then Inr (xs ! i) else Inl IndexError)"

text \<open>
  \<^verbatim>\<open>key = "/" + (key[1:] if key[0] == "/" else key)\<close>. On a string, \<^verbatim>\<open>key[0]\<close> raises
  \<^verbatim>\<open>IndexError\<close> when the string is empty. On a list it raises the same when the list is
  empty, and otherwise the concatenation of a string and a list raises \<^verbatim>\<open>TypeError\<close>; a
  dictionary has no key \<^verbatim>\<open>0\<close> (its keys are strings), and the other values cannot be
  indexed.
\<close>

fun normalize_key :: "json \<Rightarrow> error + json" where
  "normalize_key (JStr key) =
     (case key of
        [] \<Rightarrow> Inl IndexError
      | c # cs \<Rightarrow> Inr (JStr (''/'' @ (if c = CHR ''/'' then cs else key))))"
| "normalize_key (JArr key) = (case key of [] \<Rightarrow> Inl IndexError | x # xs \<Rightarrow> Inl TypeError)"
| "normalize_key (JObj key) = Inl KeyError"
| "normalize_key JNull = Inl TypeError"
| "normalize_key (JBool b) = Inl TypeError"
| "normalize_key (JInt n) = Inl TypeError"

text \<open>\<^verbatim>\<open>sep.join(xs)\<close> on a list of strings.\<close>

fun join_with :: "string \<Rightarrow> string list \<Rightarrow> string" where
  "join_with sep [] = []"
| "join_with sep [x] = x"
| "join_with sep (x # y # ys) = x @ sep @ join_with sep (y # ys)"

text \<open>
  \<^verbatim>\<open>'|'.join(url_field_names)\<close>: the argument is iterated. A list must hold strings only;
  a string gives its characters, a dictionary its keys; the other values cannot be
  iterated.
\<close>

fun str_of :: "json \<Rightarrow> string option" where
  "str_of (JStr s) = Some s"
| "str_of v = None"

fun join_field_names :: "json \<Rightarrow> error + string" where
  "join_field_names (JArr xs) =
     (if list_all (\<lambda>x. str_of x \<noteq> None) xs
      then Inr (join_with ''|'' (map (\<lambda>x. the (str_of x)) xs)) else Inl TypeError)"
| "join_field_names (JStr s) = Inr (join_with ''|'' (map (\<lambda>c. [c]) s))"
| "join_field_names (JObj kvs) = Inr (join_with ''|'' (map fst kvs))"
| "join_field_names JNull = Inl TypeError"
| "join_field_names (JBool b) = Inl TypeError"
| "join_field_names (JInt n) = Inl TypeError"

text \<open>
  The dispatch of the main program on a request that is a list: the option arguments,
  the positional arguments and the standard input for the command, or the exception
  raised on the way. The branches are tried in the order of the source.
\<close>

record invocation =
  opt_args :: "string list"
  pos_args :: "json list"
  std_input :: "json option"

definition dispatch :: "json list \<Rightarrow> error + invocation" where
  "dispatch receivedMessage =
     (if length receivedMessage = 0 then
        Inr \<lparr>opt_args = [''show''], pos_args = [JStr ''/''], std_input = None\<rparr>
      else if receivedMessage ! 0 = JStr ''insert'' then
        (case item receivedMessage 1 of Inl e \<Rightarrow> Inl e | Inr path \<Rightarrow>
         case item receivedMessage 2 of Inl e \<Rightarrow> Inl e | Inr secret \<Rightarrow>
           Inr \<lparr>opt_args = [''insert'', ''-m''], pos_args = [path],
                std_input = Some secret\<rparr>)
      else if receivedMessage ! 0 = JStr ''generate'' then
        (case item receivedMessage 1 of Inl e \<Rightarrow> Inl e | Inr path \<Rightarrow>
         case item receivedMessage 2 of Inl e \<Rightarrow> Inl e | Inr len \<Rightarrow>
           Inr \<lparr>opt_args = [''generate'']
                  @ (if JStr ''-n'' \<in> set (drop 3 receivedMessage) then [''-n''] else []),
                pos_args = [path, len], std_input = None\<rparr>)
      else if receivedMessage ! 0 = JStr ''grepMetaUrls'' \<and> length receivedMessage = 2 then
        (case join_field_names (receivedMessage ! 1) of Inl e \<Rightarrow> Inl e | Inr names \<Rightarrow>
           Inr \<lparr>opt_args = [''grep'', ''-iE''] @ COMMAND_ARGS,
                pos_args = [JStr (''^('' @ names @ ''):'')], std_input = None\<rparr>)
      else if receivedMessage ! 0 = JStr ''otp'' \<and> length receivedMessage = 2 then
        (case normalize_key (receivedMessage ! 1) of Inl e \<Rightarrow> Inl e | Inr key \<Rightarrow>
           Inr \<lparr>opt_args = [''otp''], pos_args = [key], std_input = None\<rparr>)
      else
        (case normalize_key (receivedMessage ! 0) of Inl e \<Rightarrow> Inl e | Inr key \<Rightarrow>
           Inr \<lparr>opt_args = [''show''], pos_args = [key], std_input = None\<rparr>))"

text \<open>The dispatch followed by \<^verbatim>\<open>opt_args += COMMAND_ARGS\<close>.\<close>

definition translate :: "json list \<Rightarrow> error + invocation" where
  "translate receivedMessage =
     (case dispatch receivedMessage of
        Inl e \<Rightarrow> Inl e
      | Inr iv \<Rightarrow> Inr (iv\<lparr>opt_args := opt_args iv @ COMMAND_ARGS\<rparr>))"

text \<open>\<^verbatim>\<open>cmd = [COMMAND] + opt_args + ['--'] + pos_args\<close>.\<close>

definition cmd :: "invocation \<Rightarrow> json list" where
  "cmd iv = [JStr COMMAND] @ map JStr (opt_args iv) @ [JStr ''--''] @ pos_args iv"


section \<open>Framing codec\<close>

subsection \<open>Bytes, the length prefix and UTF-8\<close>

type_synonym byte = "8 word"

text \<open>
  \<^verbatim>\<open>struct.pack('@I', n)\<close> and \<^verbatim>\<open>struct.unpack('@I', b)\<close>: an unsigned integer of four
  bytes in the byte order of the host, which is a parameter here. A number outside
  \<open>0..2^32 - 1\<close> cannot be packed, and only a buffer of exactly four bytes can be
  unpacked; both raise \<^verbatim>\<open>struct.error\<close>.
\<close>

datatype byteorder = LittleEndian | BigEndian

definition native :: "byteorder \<Rightarrow> byte list \<Rightarrow> byte list" where
  "native bo little = (case bo of LittleEndian \<Rightarrow> little | BigEndian \<Rightarrow> rev little)"

definition pack_I :: "byteorder \<Rightarrow> nat \<Rightarrow> error + byte list" where
  "pack_I bo n =
     (if n < 2 ^ 32
      then Inr (native bo [of_nat (n mod 256), of_nat (n div 2 ^ 8 mod 256),
                           of_nat (n div 2 ^ 16 mod 256), of_nat (n div 2 ^ 24 mod 256)])
      else Inl StructError)"

definition unpack_I :: "byteorder \<Rightarrow> byte list \<Rightarrow> error + nat" where
  "unpack_I bo bs =
     (if length bs \<noteq> 4 then Inl StructError
      else Inr (foldr (\<lambda>b acc. unat b + 256 * acc) (native bo bs) 0))"

text \<open>
  UTF-8. A character of the model (U+0000..U+00FF) is encoded in one or two bytes.
  Decoding gives back such characters; a well-formed sequence for a code point beyond
  U+00FF is \<open>Unmodelled\<close>, an ill-formed one raises \<^verbatim>\<open>UnicodeDecodeError\<close>.
\<close>

definition utf8_encode_char :: "char \<Rightarrow> byte list" where
  "utf8_encode_char c =
     (let n = (of_char c :: nat)
      in if n < 128 then [of_nat n] else [of_nat (192 + n div 64), of_nat (128 + n mod 64)])"

text \<open>Text of ASCII characters only.\<close>

definition is_ascii :: "string \<Rightarrow> bool" where
  "is_ascii s = (\<forall>c\<in>set s. (of_char c :: nat) < 128)"

definition utf8_encode :: "string \<Rightarrow> byte list" where
  "utf8_encode s = concat (map utf8_encode_char s)"

definition in_range :: "nat \<Rightarrow> nat \<Rightarrow> byte \<Rightarrow> bool" where
  "in_range lo hi b = (lo \<le> unat b \<and> unat b \<le> hi)"

text \<open>A well-formed sequence of more than one byte at the head of the input.\<close>

definition well_formed_head :: "byte list \<Rightarrow> bool" where
  "well_formed_head bs =
     (case bs of
        b1 # b2 # rest \<Rightarrow>
          (in_range 0xC2 0xDF b1 \<and> in_range 0x80 0xBF b2)
          \<or> (case rest of
                b3 # rest' \<Rightarrow>
                  (in_range 0xE0 0xE0 b1 \<and> in_range 0xA0 0xBF b2 \<and> in_range 0x80 0xBF b3)
                  \<or> (in_range 0xE1 0xEC b1 \<and> in_range 0x80 0xBF b2 \<and> in_range 0x80 0xBF b3)
                  \<or> (in_range 0xED 0xED b1 \<and> in_range 0x80 0x9F b2 \<and> in_range 0x80 0xBF b3)
                  \<or> (in_range 0xEE 0xEF b1 \<and> in_range 0x80 0xBF b2 \<and> in_range 0x80 0xBF b3)
                  \<or> (case rest' of
                        b4 # rest'' \<Rightarrow>
                          in_range 0x80 0xBF b3 \<and> in_range 0x80 0xBF b4
                          \<and> ((in_range 0xF0 0xF0 b1 \<and> in_range 0x90 0xBF b2)
                             \<or> (in_range 0xF1 0xF3 b1 \<and> in_range 0x80 0xBF b2)
                             \<or> (in_range 0xF4 0xF4 b1 \<and> in_range 0x80 0x8F b2))
                      | [] \<Rightarrow> False)
              | [] \<Rightarrow> False)
      | _ \<Rightarrow> False)"

fun utf8_decode :: "byte list \<Rightarrow> error + string" where
  "utf8_decode [] = Inr []"
| "utf8_decode (b # bs) =
     (if unat b < 128 then
        (case utf8_decode bs of Inl e \<Rightarrow> Inl e | Inr s \<Rightarrow> Inr (char_of (unat b) # s))
      else if in_range 0xC2 0xC3 b then
        (case bs of
           [] \<Rightarrow> Inl UnicodeDecodeError
         | b2 # bs' \<Rightarrow>
             if in_range 0x80 0xBF b2 then
               (case utf8_decode bs' of
                  Inl e \<Rightarrow> Inl e
                | Inr s \<Rightarrow> Inr (char_of ((unat b - 192) * 64 + (unat b2 - 128)) # s))
             else Inl UnicodeDecodeError)
      else if well_formed_head (b # bs) then Inl Unmodelled
      else Inl UnicodeDecodeError)"

subsection \<open>JSON text: \<^verbatim>\<open>json.dumps\<close>\<close>

text \<open>
  \<^verbatim>\<open>json.dumps\<close> with its default settings: the separators are \<^verbatim>\<open>", "\<close> and \<^verbatim>\<open>": "\<close>,
  and \<^verbatim>\<open>ensure_ascii\<close> is on, so in a string every character outside \<^verbatim>\<open>' '..'~'\<close> is
  written as an escape, as are the quote and the backslash.
\<close>

definition digit_char :: "nat \<Rightarrow> char" where
  "digit_char n = ''0123456789abcdef'' ! n"

function digits_of_nat :: "nat \<Rightarrow> string" where
  "digits_of_nat n =
     (if n < 10 then [digit_char n] else digits_of_nat (n div 10) @ [digit_char (n mod 10)])"
  by pat_completeness auto
termination
  by (relation "measure (\<lambda>n. n)") auto

declare digits_of_nat.simps [simp del]

text \<open>\<^verbatim>\<open>str(n)\<close> on an integer.\<close>

definition str_of_int :: "int \<Rightarrow> string" where
  "str_of_int i = (if i < 0 then CHR ''-'' # digits_of_nat (nat (- i)) else digits_of_nat (nat i))"

definition escape_char :: "char \<Rightarrow> string" where
  "escape_char c =
     (if c = CHR 0x22 then [CHR 0x5C, CHR 0x22]
      else if c = CHR 0x5C then [CHR 0x5C, CHR 0x5C]
      else if c = CHR 0x0A then [CHR 0x5C, CHR ''n'']
      else if c = CHR 0x0D then [CHR 0x5C, CHR ''r'']
      else if c = CHR 0x09 then [CHR 0x5C, CHR ''t'']
      else if c = CHR 0x08 then [CHR 0x5C, CHR ''b'']
      else if c = CHR 0x0C then [CHR 0x5C, CHR ''f'']
      else if 0x20 \<le> (of_char c :: nat) \<and> (of_char c :: nat) \<le> 0x7E then [c]
      else [CHR 0x5C, CHR ''u'', CHR ''0'', CHR ''0'',
            digit_char ((of_char c :: nat) div 16), digit_char ((of_char c :: nat) mod 16)])"

definition encode_basestring_ascii :: "string \<Rightarrow> string" where
  "encode_basestring_ascii s = CHR 0x22 # concat (map escape_char s) @ [CHR 0x22]"

fun json_dumps :: "json \<Rightarrow> string" where
  "json_dumps JNull = ''null''"
| "json_dumps (JBool b) = (if b then ''true'' else ''false'')"
| "json_dumps (JInt n) = str_of_int n"
| "json_dumps (JStr s) = encode_basestring_ascii s"
| "json_dumps (JArr xs) = ''['' @ join_with '', '' (map json_dumps xs) @ '']''"
| "json_dumps (JObj kvs) =
     ''{'' @ join_with '', ''
        (map (\<lambda>(k, v). encode_basestring_ascii k @ '': '' @ json_dumps v) kvs) @ ''}''"

subsection \<open>JSON text: \<^verbatim>\<open>json.loads\<close>\<close>

text \<open>
  The scanner of the standard library, for text without floating-point numbers. White
  space between tokens is \<^verbatim>\<open>' '\<close>, \<^verbatim>\<open>\t\<close>, \<^verbatim>\<open>\n\<close> and \<^verbatim>\<open>\r\<close>.
\<close>

definition is_json_ws :: "char \<Rightarrow> bool" where
  "is_json_ws c = (c \<in> {CHR 0x20, CHR 0x09, CHR 0x0A, CHR 0x0D})"

definition skip_ws :: "string \<Rightarrow> string" where
  "skip_ws s = dropWhile is_json_ws s"

definition hex_val :: "char \<Rightarrow> nat option" where
  "hex_val c =
     (let n = (of_char c :: nat)
      in if 48 \<le> n \<and> n \<le> 57 then Some (n - 48)
         else if 97 \<le> n \<and> n \<le> 102 then Some (n - 87)
         else if 65 \<le> n \<and> n \<le> 70 then Some (n - 55)
         else None)"

text \<open>The character that stands after a backslash, other than \<^verbatim>\<open>u\<close>.\<close>

definition unescape :: "char \<Rightarrow> char option" where
  "unescape e =
     (if e = CHR 0x22 then Some (CHR 0x22)
      else if e = CHR 0x5C then Some (CHR 0x5C)
      else if e = CHR ''/'' then Some (CHR ''/'')
      else if e = CHR ''b'' then Some (CHR 0x08)
      else if e = CHR ''f'' then Some (CHR 0x0C)
      else if e = CHR ''n'' then Some (CHR 0x0A)
      else if e = CHR ''r'' then Some (CHR 0x0D)
      else if e = CHR ''t'' then Some (CHR 0x09)
      else None)"

text \<open>
  \<^verbatim>\<open>scanstring\<close> (strict): the text after the opening quote is read up to the closing
  quote; the result is the string and the text after the closing quote. A control
  character, an unknown escape or a missing closing quote is an error. An escape
  \<^verbatim>\<open>\uXXXX\<close> for a code point beyond U+00FF is \<open>Unmodelled\<close>.
\<close>

fun scanstring :: "string \<Rightarrow> error + (string \<times> string)" where
  "scanstring [] = Inl JSONDecodeError"
| "scanstring (c # cs) =
     (if c = CHR 0x22 then Inr ([], cs)
      else if c = CHR 0x5C then
        (case cs of
           [] \<Rightarrow> Inl JSONDecodeError
         | e # es \<Rightarrow>
             if e = CHR ''u'' then
               (case es of
                  h1 # h2 # h3 # h4 # rest \<Rightarrow>
                    (case (hex_val h1, hex_val h2, hex_val h3, hex_val h4) of
                       (Some a, Some b, Some c', Some d) \<Rightarrow>
                         if a = 0 \<and> b = 0 then
                           (case scanstring rest of
                              Inl err \<Rightarrow> Inl err
                            | Inr (str, r) \<Rightarrow> Inr (char_of (16 * c' + d) # str, r))
                         else Inl Unmodelled
                     | _ \<Rightarrow> Inl JSONDecodeError)
                | _ \<Rightarrow> Inl JSONDecodeError)
             else
               (case unescape e of
                  None \<Rightarrow> Inl JSONDecodeError
                | Some ch \<Rightarrow>
                    (case scanstring es of
                       Inl err \<Rightarrow> Inl err
                     | Inr (str, r) \<Rightarrow> Inr (ch # str, r))))
      else if (of_char c :: nat) < 0x20 then Inl JSONDecodeError
      else
        (case scanstring cs of
           Inl err \<Rightarrow> Inl err
         | Inr (str, r) \<Rightarrow> Inr (c # str, r)))"

text \<open>
  The number pattern \<^verbatim>\<open>(-?(?:0|[1-9]\d*))(\.\d+)?([eE][-+]?\d+)?\<close>: the integer part
  with the rest of the text, and whether a fraction or an exponent follows it.
\<close>

definition int_part :: "string \<Rightarrow> (string \<times> string) option" where
  "int_part s =
     (let sign = (if s \<noteq> [] \<and> hd s = CHR ''-'' then ''-'' else []);
          t = drop (length sign) s
      in case t of
           [] \<Rightarrow> None
         | d # ds \<Rightarrow>
             if d = CHR ''0'' then Some (sign @ [d], ds)
             else if is_digit d then Some (sign @ d # takeWhile is_digit ds, dropWhile is_digit ds)
             else None)"

definition frac_follows :: "string \<Rightarrow> bool" where
  "frac_follows s =
     (case s of c # d # ds \<Rightarrow> c = CHR ''.'' \<and> is_digit d | _ \<Rightarrow> False)"

definition exp_follows :: "string \<Rightarrow> bool" where
  "exp_follows s =
     (case s of
        c # cs \<Rightarrow>
          (c = CHR ''e'' \<or> c = CHR ''E'')
          \<and> (case cs of
                x # xs \<Rightarrow> is_digit x
                  \<or> ((x = CHR ''-'' \<or> x = CHR ''+'') \<and> (case xs of y # ys \<Rightarrow> is_digit y | [] \<Rightarrow> False))
              | [] \<Rightarrow> False)
      | [] \<Rightarrow> False)"

text \<open>\<^verbatim>\<open>int(s)\<close> on an integer part.\<close>

definition py_int :: "string \<Rightarrow> int" where
  "py_int s = (if s \<noteq> [] \<and> hd s = CHR ''-'' then - int_of_digits (tl s) else int_of_digits s)"

text \<open>
  \<^verbatim>\<open>d[k] = v\<close> on a dictionary: the value of a key that is there is replaced in its
  place, a new key is put at the end.
\<close>

fun dict_setitem :: "(string \<times> json) list \<Rightarrow> string \<Rightarrow> json \<Rightarrow> (string \<times> json) list" where
  "dict_setitem [] k v = [(k, v)]"
| "dict_setitem (p # ps) k v = (if fst p = k then (k, v) # ps else p # dict_setitem ps k v)"

text \<open>
  The scanner proper. Each call takes one unit of fuel; \<^verbatim>\<open>json_loads\<close> gives it more
  fuel than the text has characters. \<open>scan_once\<close> reads one value at the head of the
  text; \<open>scan_object\<close> reads the items of an object from just after the opening quote
  of a key, \<open>scan_array\<close> the elements of an array from the first character of an
  element. A floating-point number (and \<^verbatim>\<open>NaN\<close>, \<^verbatim>\<open>Infinity\<close>) is \<open>Unmodelled\<close>.
\<close>

fun scan_once :: "nat \<Rightarrow> string \<Rightarrow> error + (json \<times> string)"
  and scan_object :: "nat \<Rightarrow> string \<Rightarrow> (string \<times> json) list \<Rightarrow> error + (json \<times> string)"
  and scan_array :: "nat \<Rightarrow> string \<Rightarrow> json list \<Rightarrow> error + (json \<times> string)" where
  "scan_once 0 s = Inl RecursionError"
| "scan_once (Suc n) s =
     (case s of
        [] \<Rightarrow> Inl JSONDecodeError
      | c # cs \<Rightarrow>
          if c = CHR 0x22 then
            (case scanstring cs of Inl e \<Rightarrow> Inl e | Inr (str, r) \<Rightarrow> Inr (JStr str, r))
          else if c = CHR 0x7B then
            (case skip_ws cs of
               [] \<Rightarrow> Inl JSONDecodeError
             | d # ds \<Rightarrow>
                 if d = CHR 0x7D then Inr (JObj [], ds)
                 else if d = CHR 0x22 then scan_object n ds []
                 else Inl JSONDecodeError)
          else if c = CHR 0x5B then
            (case skip_ws cs of
               [] \<Rightarrow> Inl JSONDecodeError
             | d # ds \<Rightarrow>
                 if d = CHR 0x5D then Inr (JArr [], ds)
                 else scan_array n (d # ds) [])
          else if prefix ''null'' s then Inr (JNull, drop 4 s)
          else if prefix ''true'' s then Inr (JBool True, drop 4 s)
          else if prefix ''false'' s then Inr (JBool False, drop 5 s)
          else
            (case int_part s of
               Some (i, r) \<Rightarrow>
                 if frac_follows r \<or> exp_follows r then Inl Unmodelled
                 else Inr (JInt (py_int i), r)
             | None \<Rightarrow>
                 if prefix ''NaN'' s \<or> prefix ''Infinity'' s \<or> prefix ''-Infinity'' s
                 then Inl Unmodelled else Inl JSONDecodeError))"
| "scan_object 0 s acc = Inl RecursionError"
| "scan_object (Suc n) s acc =
     (case scanstring s of
        Inl e \<Rightarrow> Inl e
      | Inr (key, r1) \<Rightarrow>
          (case skip_ws r1 of
             [] \<Rightarrow> Inl JSONDecodeError
           | c # r2 \<Rightarrow>
               if c \<noteq> CHR '':'' then Inl JSONDecodeError
               else
                 (case scan_once n (skip_ws r2) of
                    Inl e \<Rightarrow> Inl e
                  | Inr (v, r3) \<Rightarrow>
                      (case skip_ws r3 of
                         [] \<Rightarrow> Inl JSONDecodeError
                       | d # r4 \<Rightarrow>
                           if d = CHR 0x7D then Inr (JObj (dict_setitem acc key v), r4)
                           else if d \<noteq> CHR '','' then Inl JSONDecodeError
                           else
                             (case skip_ws r4 of
                                [] \<Rightarrow> Inl JSONDecodeError
                              | q # r5 \<Rightarrow>
                                  if q = CHR 0x22 then scan_object n r5 (dict_setitem acc key v)
                                  else Inl JSONDecodeError)))))"
| "scan_array 0 s acc = Inl RecursionError"
| "scan_array (Suc n) s acc =
     (case scan_once n s of
        Inl e \<Rightarrow> Inl e
      | Inr (v, r1) \<Rightarrow>
          (case skip_ws r1 of
             [] \<Rightarrow> Inl JSONDecodeError
           | d # r2 \<Rightarrow>
               if d = CHR 0x5D then Inr (JArr (acc @ [v]), r2)
               else if d \<noteq> CHR '','' then Inl JSONDecodeError
               else scan_array n (skip_ws r2) (acc @ [v])))"

text \<open>
  \<^verbatim>\<open>json.loads(s)\<close>: white space, one value, white space, and then the end of the text.
\<close>

definition json_loads :: "string \<Rightarrow> error + json" where
  "json_loads s =
     (case scan_once (Suc (length s)) (skip_ws s) of
        Inl e \<Rightarrow> Inl e
      | Inr (v, r) \<Rightarrow> if skip_ws r = [] then Inr v else Inl JSONDecodeError)"

subsection \<open>Messages on the wire\<close>

text \<open>
  What a run of the program comes to: a value is returned, the process exits with a
  status (\<^verbatim>\<open>sys.exit\<close>), or an exception is raised and not caught.
\<close>

datatype 'a outcome = Return 'a | Exit int | Raise error

text \<open>
  \<^verbatim>\<open>getMessage\<close> on the bytes that standard input still holds. \<^verbatim>\<open>read(n)\<close> gives
  the next \<open>n\<close> bytes, or fewer at the end of the input.
\<close>

definition getMessage :: "byteorder \<Rightarrow> byte list \<Rightarrow> json outcome" where
  "getMessage bo stdin =
     (let rawLength = take 4 stdin in
      if length rawLength = 0 then Exit 0
      else
        (case unpack_I bo rawLength of
           Inl e \<Rightarrow> Raise e
         | Inr messageLength \<Rightarrow>
             (case utf8_decode (take messageLength (drop 4 stdin)) of
                Inl e \<Rightarrow> Raise e
              | Inr message \<Rightarrow>
                  (case json_loads message of
                     Inl e \<Rightarrow> Raise e
                   | Inr v \<Rightarrow> Return v))))"

text \<open>
  \<^verbatim>\<open>encodeMessage\<close>: the length that is packed is \<^verbatim>\<open>len(encodedContent)\<close>, the number
  of characters of the JSON text.
\<close>

record encoded_message =
  msg_length :: "byte list"
  msg_content :: string

definition encodeMessage :: "byteorder \<Rightarrow> json \<Rightarrow> error + encoded_message" where
  "encodeMessage bo messageContent =
     (let encodedContent = json_dumps messageContent in
      case pack_I bo (length encodedContent) of
        Inl e \<Rightarrow> Inl e
      | Inr encodedLength \<Rightarrow> Inr \<lparr>msg_length = encodedLength, msg_content = encodedContent\<rparr>)"

text \<open>
  \<^verbatim>\<open>sendMessage\<close>: the bytes that standard output holds afterwards. The length goes out
  as it is, the content through the text layer of the stream, which encodes it (UTF-8
  here; the content is ASCII, which every usual encoding writes the same way).
\<close>

definition sendMessage :: "byte list \<Rightarrow> encoded_message \<Rightarrow> byte list" where
  "sendMessage stdout_bytes encodedMessage =
     stdout_bytes @ msg_length encodedMessage @ utf8_encode (msg_content encodedMessage)"

section \<open>The main program\<close>

text \<open>The response, and the dictionary that is built from it at the end of the program.\<close>

record response =
  resp_exitCode :: int
  resp_stdout :: string
  resp_stderr :: string
  resp_errorCode :: int
  resp_version :: string

definition response_json :: "response \<Rightarrow> json" where
  "response_json r =
     JObj [(''exitCode'', JInt (resp_exitCode r)), (''stdout'', JStr (resp_stdout r)),
           (''stderr'', JStr (resp_stderr r)), (''errorCode'', JInt (resp_errorCode r)),
           (''version'', JStr (resp_version r))]"

text \<open>
  The dispatch on a decoded message of any type. On a string, \<^verbatim>\<open>len\<close> and indexing work
  as on the list of its characters; no character equals an action name, so only the
  first and the last branch can be taken. A dictionary has a length, but no key \<^verbatim>\<open>0\<close>.
  The other values have no length.
\<close>

fun translate_message :: "json \<Rightarrow> error + invocation" where
  "translate_message (JArr xs) = translate xs"
| "translate_message (JStr s) = translate (map (\<lambda>c. JStr [c]) s)"
| "translate_message (JObj kvs) = (if kvs = [] then translate [] else Inl KeyError)"
| "translate_message JNull = Inl TypeError"
| "translate_message (JBool b) = Inl TypeError"
| "translate_message (JInt n) = Inl TypeError"

text \<open>The environment of the command.\<close>

definition COMMAND_ENV :: "(string \<times> string) list" where
  "COMMAND_ENV = [(''TREE_CHARSET'', ''ISO-8859-1''),
                  (''PATH'', ''/usr/local/bin:/usr/bin:/bin:/usr/sbin:/sbin'')]"

definition compose_env :: "(string \<rightharpoonup> string) \<Rightarrow> string \<Rightarrow> (string \<rightharpoonup> string)" where
  "compose_env environ home =
     (let env1 = (if environ ''HOME'' = None then environ(''HOME'' \<mapsto> home) else environ);
          env2 = foldl (\<lambda>env (key, val). env(key \<mapsto> val)) env1 COMMAND_ENV
      in setFlags env2 REQUIRED_FLAGS)"

text \<open>
  \<^verbatim>\<open>bytes(std_input, CHARSET) if std_input else None\<close>: a value that counts as false
  gives no input; of the others only a string can be encoded.
\<close>

fun truthy :: "json \<Rightarrow> bool" where
  "truthy JNull = False"
| "truthy (JBool b) = b"
| "truthy (JInt n) = (n \<noteq> 0)"
| "truthy (JStr s) = (s \<noteq> [])"
| "truthy (JArr xs) = (xs \<noteq> [])"
| "truthy (JObj kvs) = (kvs \<noteq> [])"

definition input_bytes :: "json option \<Rightarrow> error + byte list option" where
  "input_bytes std_in =
     (case std_in of
        None \<Rightarrow> Inr None
      | Some v \<Rightarrow>
          if truthy v then (case v of JStr s \<Rightarrow> Inr (Some (utf8_encode s)) | _ \<Rightarrow> Inl TypeError)
          else Inr None)"

text \<open>
  The command is run by \<^verbatim>\<open>subprocess.run\<close>, which is a parameter of the model: from
  the argument vector, the input and the environment it gives the exception that the
  call raises, or the return code and the bytes of the two output streams.
\<close>

record completed =
  returncode :: int
  proc_stdout :: "byte list"
  proc_stderr :: "byte list"

type_synonym runner =
  "json list \<Rightarrow> byte list option \<Rightarrow> (string \<rightharpoonup> string) \<Rightarrow> error + completed"

text \<open>How the process ends, and the bytes it has written to standard output.\<close>

datatype ending = Exited int | Uncaught error

text \<open>The main program after the message has been read.\<close>

definition serve ::
  "byteorder \<Rightarrow> json \<Rightarrow> (string \<rightharpoonup> string) \<Rightarrow> string \<Rightarrow> runner \<Rightarrow> ending \<times> byte list" where
  "serve bo receivedMessage environ home run =
     (case translate_message receivedMessage of
        Inl e \<Rightarrow> (Uncaught e, [])
      | Inr iv \<Rightarrow>
          (let env = compose_env environ home in
           case input_bytes (std_input iv) of
             Inl e \<Rightarrow> (Uncaught e, [])
           | Inr inp \<Rightarrow>
               (case run (cmd iv) inp env of
                  Inl e \<Rightarrow> (Uncaught e, [])
                | Inr proc \<Rightarrow>
                    (case utf8_decode (proc_stderr proc) of
                       Inl e \<Rightarrow> (Uncaught e, [])
                     | Inr decoded_stderr \<Rightarrow>
                         (case cleanStderr decoded_stderr of
                            (cleaned, error_code) \<Rightarrow>
                              (case utf8_decode (proc_stdout proc) of
                                 Inl e \<Rightarrow> (Uncaught e, [])
                               | Inr out_text \<Rightarrow>
                                   (case encodeMessage bo
                                       (response_json
                                         \<lparr>resp_exitCode = returncode proc,
                                          resp_stdout = out_text, resp_stderr = cleaned,
                                          resp_errorCode = error_code,
                                          resp_version = VERSION\<rparr>) of
                                      Inl e \<Rightarrow> (Uncaught e, [])
                                    | Inr em \<Rightarrow> (Exited 0, sendMessage [] em))))))))"

definition main ::
  "byteorder \<Rightarrow> byte list \<Rightarrow> (string \<rightharpoonup> string) \<Rightarrow> string \<Rightarrow> runner \<Rightarrow> ending \<times> byte list" where
  "main bo stdin environ home run =
     (case getMessage bo stdin of
        Exit status \<Rightarrow> (Exited status, [])
      | Raise e \<Rightarrow> (Uncaught e, [])
      | Return receivedMessage \<Rightarrow> serve bo receivedMessage environ home run)"

section \<open>Properties of the classifier\<close>

subsection \<open>How the loop runs\<close>

lemma loop_body_end: "is_end_decryption l \<Longrightarrow> loop_body st l = (Break, st)"
  by (cases st) (auto simp: loop_body_def line_class_defs split: option.splits)

lemma loop_body_not_end: "\<not> is_end_decryption l \<Longrightarrow> fst (loop_body st l) = Continue"
  by (cases st) (auto simp: loop_body_def line_class_defs split: option.splits)

lemma loop_takeWhile: "loop st ls = loop st (takeWhile (\<lambda>l. \<not> is_end_decryption l) ls)"
proof (induction ls arbitrary: st)
  case Nil
  show ?case by simp
next
  case (Cons l ls)
  show ?case
  proof (cases "is_end_decryption l")
    case True
    then show ?thesis by (simp add: loop_body_end)
  next
    case False
    obtain st' where "loop_body st l = (Continue, st')"
      using loop_body_not_end [OF False, of st] by (cases "loop_body st l") auto
    with False Cons.IH [of st'] show ?thesis by simp
  qed
qed


lemma takeWhile_stop: "\<not> P e \<Longrightarrow> takeWhile P (pre @ e # post) = takeWhile P pre"
  by (induction pre) auto

lemma loop_cut: "is_end_decryption e \<Longrightarrow> loop st (pre @ e # post) = loop st pre"
proof -
  assume e: "is_end_decryption e"
  have "loop st (pre @ e # post)
      = loop st (takeWhile (\<lambda>l. \<not> is_end_decryption l) (pre @ e # post))"
    by (rule loop_takeWhile)
  also have "\<dots> = loop st (takeWhile (\<lambda>l. \<not> is_end_decryption l) pre)"
    using e by (simp add: takeWhile_stop)
  also have "\<dots> = loop st pre" by (rule loop_takeWhile [symmetric])
  finally show ?thesis .
qed





lemma drop_keep_last: "drop (length p - 1) p = (if p = [] then [] else [last p])"
  by (induction p) (auto simp: drop_Cons split: nat.splits)





subsection \<open>The markers as the tool prints them\<close>

lemma enc_to_line: "is_enc_to ''[GNUPG:] ENC_TO 0123456789ABCDEF 1 0''"
  by (simp add: line_class_defs marker_defs pattern_defs)

lemma no_seckey_line: "is_no_seckey ''[GNUPG:] NO_SECKEY 0123456789ABCDEF''"
  by (simp add: line_class_defs marker_defs pattern_defs)

lemma begin_decryption_line: "is_begin_decryption ''[GNUPG:] BEGIN_DECRYPTION''"
  by (simp add: line_class_defs marker_defs pattern_defs)

lemma end_decryption_line: "is_end_decryption ''[GNUPG:] END_DECRYPTION''"
  by (simp add: line_class_defs marker_defs pattern_defs)

subsection \<open>C1: a missing secret key and the final error code\<close>




subsection \<open>C4: the "begin decryption" marker\<close>

text \<open>
  C4: on a status line that the loop body takes as "begin decryption", the preserved
  lines are cut down to the last one (the slice assignment \<^verbatim>\<open>preserve[:-1] = []\<close>); an
  empty sequence stays empty. The error code is kept and the loop goes on.
\<close>

theorem begin_decryption_keeps_last:
  "is_begin_decryption l \<Longrightarrow>
   loop_body (p, ec) l = (Continue, (if p = [] then [] else [last p]), ec)"
  by (auto simp: loop_body_def line_class_defs drop_keep_last simp del: One_nat_def
      split: option.splits)

theorem begin_decryption_keeps_last_witness:
  "is_begin_decryption ''[GNUPG:] BEGIN_DECRYPTION''
   \<and> loop_body ([''gpg: encrypted with RSA key'', ''      Alice'', ''gpg: public key is 1234''], 5)
        ''[GNUPG:] BEGIN_DECRYPTION''
     = (Continue, [''gpg: public key is 1234''], 5)
   \<and> loop_body ([], 5) ''[GNUPG:] BEGIN_DECRYPTION'' = (Continue, [], 5)"
  using begin_decryption_keeps_last [OF begin_decryption_line,
      of "[''gpg: encrypted with RSA key'', ''      Alice'', ''gpg: public key is 1234'']" 5]
    begin_decryption_keeps_last [OF begin_decryption_line, of "[]" 5]
    begin_decryption_line
  by simp

subsection \<open>C5: the "end decryption" marker\<close>

text \<open>
  C5: on a status line that the loop body takes as "end decryption" the loop stops at
  once with the state unchanged, and the result of the classifier is the result for the
  lines before the marker alone: no line after the marker has any part in the cleaned
  log (or in the error code).
\<close>

theorem end_decryption_stops:
  assumes "is_end_decryption e" and "split_nl stderr = pre @ e # post"
  shows "loop_body st e = (Break, st) \<and> cleanStderr stderr = cleanLines pre"
  using assms by (simp add: loop_body_end cleanStderr_def cleanLines_def loop_cut)

theorem end_decryption_stops_witness:
  "is_end_decryption ''[GNUPG:] END_DECRYPTION''
   \<and> split_nl (''gpg: decryption failed'' @ CHR 0x0A # ''[GNUPG:] END_DECRYPTION'' @ CHR 0x0A #
        ''gpg: later noise'')
      = [''gpg: decryption failed''] @ ''[GNUPG:] END_DECRYPTION'' # [''gpg: later noise'']
   \<and> loop_body ([''x''], 3) ''[GNUPG:] END_DECRYPTION'' = (Break, [''x''], 3)
   \<and> cleanStderr (''gpg: decryption failed'' @ CHR 0x0A # ''[GNUPG:] END_DECRYPTION'' @ CHR 0x0A #
        ''gpg: later noise'')
      = (''gpg: decryption failed'', 0)"
proof -
  have s: "split_nl (''gpg: decryption failed'' @ CHR 0x0A # ''[GNUPG:] END_DECRYPTION'' @ CHR 0x0A #
        ''gpg: later noise'')
      = [''gpg: decryption failed''] @ ''[GNUPG:] END_DECRYPTION'' # [''gpg: later noise'']"
    by simp
  have c: "cleanLines [''gpg: decryption failed''] = (''gpg: decryption failed'', 0)"
    by (simp add: cleanLines_def loop_body_def pattern_defs)
  show ?thesis
    using end_decryption_stops [OF end_decryption_line s, of "([''x''], 3)"]
      end_decryption_line s c
    by simp
qed

subsection \<open>C6: channel errors\<close>



section \<open>Properties of the environment composer\<close>

lemma re_sub_debug_skips_status:
  "re_sub_flag ''debug'' (''--status-fd=2 '' @ r) = ''--status-fd=2 '' @ re_sub_flag ''debug'' r"
  by (simp add: flag_match_def)

lemma shlex_quote_required: "shlex_quote ''2'' = ''2''" "shlex_quote ''ipc'' = ''ipc''"
  by (simp_all add: shlex_quote_def is_safe_char_def)

subsection \<open>C2: where the new flag is put\<close>

text \<open>
  C2 as stated: each required flag is stripped from the option string and the new
  \<^verbatim>\<open>--flag=value\<close> is appended to the end of what is left. The code puts the new flag in
  front: from \<^verbatim>\<open>--armor\<close> the turn for \<^verbatim>\<open>status-fd\<close> makes \<^verbatim>\<open>--status-fd=2 --armor\<close>, and
  the composed string is \<^verbatim>\<open>--debug=ipc --status-fd=2 --armor\<close>, which ends with neither of
  the two flags.
\<close>

theorem setFlags_appends_counterexample:
  "set_flag ''--armor'' (''status-fd'', ''2'') = ''--status-fd=2 --armor''
   \<and> set_flag ''--armor'' (''status-fd'', ''2'')
       \<noteq> re_sub_flag ''status-fd'' ''--armor'' @ '' --status-fd=2''
   \<and> setFlags [''PASSWORD_STORE_GPG_OPTS'' \<mapsto> ''--armor''] REQUIRED_FLAGS
        ''PASSWORD_STORE_GPG_OPTS'' = Some ''--debug=ipc --status-fd=2 --armor''
   \<and> \<not> suffix ''--debug=ipc'' ''--debug=ipc --status-fd=2 --armor''
   \<and> \<not> suffix ''--status-fd=2'' ''--debug=ipc --status-fd=2 --armor''"
  by (simp add: setFlags_def env_get_def REQUIRED_FLAGS_def set_flag_def shlex_quote_required
      flag_match_def strip_def is_space_def suffix_def)

text \<open>
  C2 (amended): for every initial option string and each required flag, the composer
  strips the matches of the flag's pattern from the option string and puts the new
  \<^verbatim>\<open>--flag[=value]\<close> (value shell-quoted) and a space in front of what is left. For the
  two required flags the composed option string is \<^verbatim>\<open>--debug=ipc --status-fd=2\<close>, a space
  and the initial string with the matches of \<^verbatim>\<open>status-fd\<close> and then of \<^verbatim>\<open>debug\<close> taken
  out, with the white space at both ends taken off; the other variables are unchanged.
\<close>

theorem setFlags_prepends:
  "setFlags env REQUIRED_FLAGS
     = env(''PASSWORD_STORE_GPG_OPTS'' \<mapsto>
         strip (''--debug=ipc --status-fd=2 '' @
           re_sub_flag ''debug'' (re_sub_flag ''status-fd''
             (env_get env ''PASSWORD_STORE_GPG_OPTS'' []))))
   \<and> set_flag opts (flag, val)
     = ''--'' @ flag @ (if val = [] then [] else ''='' @ shlex_quote val) @ '' ''
         @ re_sub_flag flag opts"
  using re_sub_debug_skips_status
  by (simp add: setFlags_def REQUIRED_FLAGS_def set_flag_def shlex_quote_required)

subsection \<open>Taking a flag out of an option string\<close>

lemma placed_sited: "placed b q s = sited True b q s"
  by (induction s arbitrary: b) auto

lemma occ_sited: "q \<noteq> [] \<Longrightarrow> (occurrences q s = 0) = sited False b q s"
  by (induction s arbitrary: b) auto

lemma sited_mono: "sited a b q s \<Longrightarrow> sited a True q s"
  by (cases s) auto

lemma sited_no_head: "sited a b q s \<Longrightarrow> \<not> prefix q s \<Longrightarrow> sited a b' q s"
  by (cases s) auto

lemma sited_append: "sited a b q (x @ y) \<Longrightarrow> x \<noteq> [] \<Longrightarrow> sited a (is_space (last x)) q y"
  by (induction x arbitrary: b) (auto split: if_splits)

lemma lit_iff: "lit p s = Some r \<longleftrightarrow> s = p @ r"
  by (induction p s rule: lit.induct) auto

lemma lit_None: "lit p s = None \<longleftrightarrow> \<not> prefix p s"
  by (induction p s rule: lit.induct) auto

lemma flag_match_None: "flag_match f s = None \<longleftrightarrow> \<not> prefix (''--'' @ f) s"
  by (auto simp: flag_match_def lit_None lit_iff split: option.splits list.splits)

lemma flag_match_Some_prefix: "flag_match f s = Some r \<Longrightarrow> prefix (''--'' @ f) s"
  using flag_match_None [of f s] by auto

lemma dropWhile_nonspace_head:
  "q \<noteq> [] \<Longrightarrow> \<not> is_space (hd q) \<Longrightarrow> \<not> prefix q (dropWhile (\<lambda>x. \<not> is_space x) z)"
proof
  let ?D = "dropWhile (\<lambda>x. \<not> is_space x) z"
  assume q: "q \<noteq> []" "\<not> is_space (hd q)" and p: "prefix q ?D"
  from q p obtain d ds where D: "?D = d # ds" by (cases ?D) auto
  then have "?D \<noteq> []" by simp
  from hd_dropWhile [OF this] D have "is_space d" by simp
  moreover from q p D have "hd q = d" by (cases q) auto
  ultimately show False using q by simp
qed

lemma flag_match_rest:
  assumes m: "flag_match f s = Some r" and pl: "sited a b (''--'' @ f) s" and wf: "ws_free f"
  shows "sited a False (''--'' @ f) r"
proof -
  define p where "p = ''--'' @ f"
  have lastp: "\<not> is_space (last p)"
    using wf by (cases "f = []") (auto simp: p_def ws_free_def is_space_def)
  have hdp: "p \<noteq> []" "\<not> is_space (hd p)" by (auto simp: p_def is_space_def)
  from m obtain t where s: "s = p @ t"
    and r: "r = (case t of [] \<Rightarrow> []
           | c # cs \<Rightarrow> if c = CHR ''='' then dropWhile (\<lambda>x. \<not> is_space x) cs
               else if is_space c
                 then dropWhile (\<lambda>x. \<not> is_space x) (dropWhile is_space (c # cs))
               else c # cs)"
    by (auto simp: flag_match_def lit_iff p_def split: option.splits list.splits if_splits)
  from pl have pl': "sited a b p s" by (simp add: p_def)
  have suffix_case: "sited a False p r" if x: "s = x @ r" "x \<noteq> []" and np: "\<not> prefix p r" for x
  proof -
    from pl' x have "sited a (is_space (last x)) p r" using sited_append by blast
    with np show ?thesis by (blast intro: sited_no_head)
  qed
  have "sited a False p r"
  proof (cases t)
    case Nil
    with r show ?thesis by simp
  next
    case (Cons c cs)
    consider (eq) "c = CHR ''=''" | (sp) "c \<noteq> CHR ''=''" "is_space c"
      | (other) "c \<noteq> CHR ''=''" "\<not> is_space c" by blast
    then show ?thesis
    proof cases
      case eq
      with r Cons have r': "r = dropWhile (\<lambda>x. \<not> is_space x) cs" by simp
      have "s = (p @ c # takeWhile (\<lambda>x. \<not> is_space x) cs) @ r"
        using s Cons r' by simp
      moreover have "\<not> prefix p r" unfolding r' using hdp by (rule dropWhile_nonspace_head)
      ultimately show ?thesis using suffix_case by blast
    next
      case sp
      with r Cons have r': "r = dropWhile (\<lambda>x. \<not> is_space x) (dropWhile is_space (c # cs))"
        by simp
      have "c # cs = takeWhile is_space (c # cs) @ dropWhile is_space (c # cs)" by simp
      also have "dropWhile is_space (c # cs)
          = takeWhile (\<lambda>x. \<not> is_space x) (dropWhile is_space (c # cs)) @ r"
        unfolding r' by simp
      finally have "c # cs = (takeWhile is_space (c # cs)
          @ takeWhile (\<lambda>x. \<not> is_space x) (dropWhile is_space (c # cs))) @ r"
        by simp
      then have "s = (p @ takeWhile is_space (c # cs)
          @ takeWhile (\<lambda>x. \<not> is_space x) (dropWhile is_space (c # cs))) @ r"
        using s Cons by simp
      moreover have "\<not> prefix p r" unfolding r' using hdp by (rule dropWhile_nonspace_head)
      ultimately show ?thesis using suffix_case hdp(1) by blast
    next
      case other
      with r Cons have r': "r = t" by simp
      from pl' s r' hdp(1) have "sited a (is_space (last p)) p r"
        using sited_append [of a b p p r] by simp
      with lastp show ?thesis by simp
    qed
  qed
  then show ?thesis by (simp add: p_def)
qed


lemma prefix_re_sub:
  "ws_free u \<Longrightarrow> sited True False (''--'' @ f) s \<Longrightarrow> prefix u (re_sub_flag f s) \<Longrightarrow> prefix u s"
proof (induction u arbitrary: s)
  case Nil
  show ?case by simp
next
  case (Cons u0 u')
  show ?case
  proof (cases s)
    case Nil
    with Cons.prems show ?thesis by simp
  next
    case (Cons c cs)
    from Cons.prems(2) Cons have nm: "flag_match f (c # cs) = None"
      by (simp add: flag_match_None)
    with Cons.prems(3) Cons have c: "u0 = c" and pu: "prefix u' (re_sub_flag f cs)" by auto
    from Cons.prems(1) c have "\<not> is_space c" by (simp add: ws_free_def)
    with Cons.prems(2) Cons have "sited True False (''--'' @ f) cs" by simp
    moreover from Cons.prems(1) have "ws_free u'" by (simp add: ws_free_def)
    ultimately have "prefix u' cs" using pu Cons.IH by blast
    with c Cons show ?thesis by simp
  qed
qed

lemma head_kept:
  assumes wq: "ws_free q" and q: "q \<noteq> []" and nm: "flag_match f (c # cs) = None"
    and pl: "sited True b (''--'' @ f) (c # cs)"
    and pr: "prefix q (c # re_sub_flag f cs)"
  shows "prefix q (c # cs)"
proof -
  from q obtain q0 q' where qq: "q = q0 # q'" by (cases q) auto
  from pr qq have c: "q0 = c" and pq: "prefix q' (re_sub_flag f cs)" by auto
  from wq c qq have "\<not> is_space c" by (simp add: ws_free_def)
  with pl have "sited True False (''--'' @ f) cs" by simp
  moreover from wq qq have "ws_free q'" by (simp add: ws_free_def)
  ultimately have "prefix q' cs" using pq prefix_re_sub by blast
  with c qq show ?thesis by simp
qed

lemma sited_head: "sited a b q (c # cs) \<Longrightarrow> prefix q (c # cs) \<Longrightarrow> a \<and> b"
  by simp

lemma sited_Cons: "sited a b q (c # cs) \<Longrightarrow> sited a (is_space c) q cs"
  by simp

lemma sited_ConsI:
  "(prefix q (c # cs) \<longrightarrow> a \<and> b) \<Longrightarrow> sited a (is_space c) q cs \<Longrightarrow> sited a b q (c # cs)"
  by simp

lemma ws_free_flag: "ws_free f \<Longrightarrow> ws_free (''--'' @ f)"
  by (simp add: ws_free_def is_space_def)

lemma sited_False_any: "sited a False q s \<Longrightarrow> sited a b q s"
  by (cases s) auto

lemma flag_match_suffix: "flag_match f s = Some r \<Longrightarrow> \<exists>x. s = x @ r \<and> x \<noteq> []"
proof -
  assume m: "flag_match f s = Some r"
  then obtain t where s: "s = (''--'' @ f) @ t"
    and r: "r = (case t of [] \<Rightarrow> []
           | c # cs \<Rightarrow> if c = CHR ''='' then dropWhile (\<lambda>x. \<not> is_space x) cs
               else if is_space c
                 then dropWhile (\<lambda>x. \<not> is_space x) (dropWhile is_space (c # cs))
               else c # cs)"
    by (auto simp: flag_match_def lit_iff split: option.splits list.splits if_splits)
  have "\<exists>y. t = y @ r"
  proof (cases t)
    case Nil
    with r show ?thesis by simp
  next
    case (Cons c cs)
    consider (eq) "c = CHR ''=''" | (sp) "c \<noteq> CHR ''=''" "is_space c"
      | (other) "c \<noteq> CHR ''=''" "\<not> is_space c" by blast
    then show ?thesis
    proof cases
      case eq
      with r Cons have "t = (c # takeWhile (\<lambda>x. \<not> is_space x) cs) @ r" by simp
      then show ?thesis by blast
    next
      case sp
      with r Cons have r': "r = dropWhile (\<lambda>x. \<not> is_space x) (dropWhile is_space (c # cs))"
        by simp
      have "c # cs = takeWhile is_space (c # cs) @ dropWhile is_space (c # cs)" by simp
      also have "dropWhile is_space (c # cs)
          = takeWhile (\<lambda>x. \<not> is_space x) (dropWhile is_space (c # cs)) @ r"
        unfolding r' by simp
      finally have "t = (takeWhile is_space (c # cs)
          @ takeWhile (\<lambda>x. \<not> is_space x) (dropWhile is_space (c # cs))) @ r"
        using Cons by simp
      then show ?thesis by blast
    next
      case other
      with r Cons have "t = [] @ r" by simp
      then show ?thesis by blast
    qed
  qed
  then obtain y where "t = y @ r" by blast
  with s have "s = ((''--'' @ f) @ y) @ r \<and> (''--'' @ f) @ y \<noteq> []" by simp
  then show ?thesis by blast
qed

lemma sited_re_sub:
  assumes wq: "ws_free q" and q: "q \<noteq> []"
  shows "ws_free f \<Longrightarrow> sited True b (''--'' @ f) s \<Longrightarrow> sited a b q s
    \<Longrightarrow> sited a b q (re_sub_flag f s)"
proof (induction f s arbitrary: b rule: re_sub_flag.induct)
  case (1 flag)
  show ?case by simp
next
  case (2 flag c cs)
  show ?case
  proof (cases "flag_match flag (c # cs)")
    case None
    have tl: "sited a (is_space c) q (re_sub_flag flag cs)"
      using "2.IH"(1) [OF None "2.prems"(1) sited_Cons [OF "2.prems"(2)] sited_Cons [OF "2.prems"(3)]] .
    have hd: "prefix q (c # re_sub_flag flag cs) \<longrightarrow> a \<and> b"
    proof
      assume "prefix q (c # re_sub_flag flag cs)"
      then have "prefix q (c # cs)"
        by (rule head_kept [OF wq q None "2.prems"(2)])
      with "2.prems"(3) show "a \<and> b" by (rule sited_head)
    qed
    have "sited a b q (c # re_sub_flag flag cs)" using hd tl by (rule sited_ConsI)
    with None show ?thesis by simp
  next
    case (Some r)
    have b: "True \<and> b"
      using "2.prems"(2) flag_match_Some_prefix [OF Some] by (rule sited_head)
    have p: "sited True False (''--'' @ flag) r"
      using flag_match_rest [OF Some "2.prems"(2) "2.prems"(1)] .
    from flag_match_suffix [OF Some] obtain x where x: "c # cs = x @ r" "x \<noteq> []" by blast
    with "2.prems"(3) have qr: "sited a (is_space (last x)) q r"
      using sited_append [of a b q x r] by simp
    from p have "sited True (is_space (last x)) (''--'' @ flag) r"
      by (rule sited_False_any)
    then have "sited a (is_space (last x)) q (re_sub_flag flag r)"
      using qr "2.IH"(2) [OF Some "2.prems"(1)] by blast
    then have "sited a True q (re_sub_flag flag r)" by (rule sited_mono)
    with Some b show ?thesis by simp
  qed
qed

lemma re_sub_removes_all:
  "ws_free f \<Longrightarrow> sited True b (''--'' @ f) s \<Longrightarrow> sited False b (''--'' @ f) (re_sub_flag f s)"
proof (induction f s arbitrary: b rule: re_sub_flag.induct)
  case (1 flag)
  show ?case by simp
next
  case (2 flag c cs)
  show ?case
  proof (cases "flag_match flag (c # cs)")
    case None
    have tl: "sited False (is_space c) (''--'' @ flag) (re_sub_flag flag cs)"
      using "2.IH"(1) [OF None "2.prems"(1) sited_Cons [OF "2.prems"(2)]] .
    have ne: "''--'' @ flag \<noteq> []" by simp
    have hd: "prefix (''--'' @ flag) (c # re_sub_flag flag cs) \<longrightarrow> False \<and> b"
    proof
      assume "prefix (''--'' @ flag) (c # re_sub_flag flag cs)"
      then have "prefix (''--'' @ flag) (c # cs)"
        by (rule head_kept [OF ws_free_flag [OF "2.prems"(1)] ne None "2.prems"(2)])
      with None show "False \<and> b" using flag_match_None by blast
    qed
    have "sited False b (''--'' @ flag) (c # re_sub_flag flag cs)"
      using hd tl by (rule sited_ConsI)
    with None show ?thesis by simp
  next
    case (Some r)
    have p: "sited True False (''--'' @ flag) r"
      using flag_match_rest [OF Some "2.prems"(2) "2.prems"(1)] .
    have "sited False False (''--'' @ flag) (re_sub_flag flag r)"
      using "2.IH"(2) [OF Some "2.prems"(1) p] .
    then have "sited False b (''--'' @ flag) (re_sub_flag flag r)" by (rule sited_False_any)
    with Some show ?thesis by simp
  qed
qed


lemma prefix_before_space:
  "ws_free q \<Longrightarrow> w = [] \<or> is_space (hd w) \<Longrightarrow> prefix q (y @ w) \<longleftrightarrow> prefix q y"
proof (induction y arbitrary: q)
  case Nil
  then show ?case by (cases q; cases w) (auto simp: ws_free_def)
next
  case (Cons c y)
  show ?case
  proof (cases q)
    case Nil
    then show ?thesis by simp
  next
    case (Cons q0 q')
    with Cons.prems have "ws_free q'" by (simp add: ws_free_def)
    from Cons.IH [OF this Cons.prems(2)] Cons show ?thesis by simp
  qed
qed

lemma occ_append_space:
  "ws_free q \<Longrightarrow> q \<noteq> [] \<Longrightarrow> \<forall>c\<in>set w. is_space c \<Longrightarrow> occurrences q (y @ w) = occurrences q y"
proof (induction y)
  case Nil
  then show ?case
  proof (induction w)
    case Nil
    then show ?case by simp
  next
    case (Cons c w)
    then have "\<not> prefix q (c # w)" by (cases q) (auto simp: ws_free_def)
    with Cons show ?case by simp
  qed
next
  case (Cons c y)
  have "w = [] \<or> is_space (hd w)" using Cons.prems(3) by (cases w) auto
  from prefix_before_space [OF Cons.prems(1) this, of "c # y"] Cons show ?case by simp
qed

lemma occ_split:
  "ws_free q \<Longrightarrow> q \<noteq> [] \<Longrightarrow> is_space w \<Longrightarrow>
   occurrences q (y @ w # z) = occurrences q y + occurrences q z"
proof (induction y)
  case Nil
  then have "\<not> prefix q (w # z)" by (cases q) (auto simp: ws_free_def)
  then show ?case using Nil by simp
next
  case (Cons c y)
  from prefix_before_space [OF Cons.prems(1), of "w # z" "c # y"] Cons show ?case by simp
qed

lemma occ_dropWhile_space:
  "ws_free q \<Longrightarrow> q \<noteq> [] \<Longrightarrow> occurrences q (dropWhile is_space x) = occurrences q x"
proof (induction x)
  case Nil
  show ?case by simp
next
  case (Cons c x)
  show ?case
  proof (cases "is_space c")
    case True
    with Cons.prems have "\<not> prefix q (c # x)" by (cases q) (auto simp: ws_free_def)
    with True Cons show ?thesis by simp
  next
    case False
    then show ?thesis by simp
  qed
qed

lemma occ_strip: "ws_free q \<Longrightarrow> q \<noteq> [] \<Longrightarrow> occurrences q (strip x) = occurrences q x"
proof -
  assume q: "ws_free q" "q \<noteq> []"
  let ?y = "dropWhile is_space x"
  have "?y = rev (dropWhile is_space (rev ?y)) @ rev (takeWhile is_space (rev ?y))"
    by (metis rev_append rev_rev_ident takeWhile_dropWhile_id)
  moreover have "\<forall>c\<in>set (rev (takeWhile is_space (rev ?y))). is_space c"
    by (auto dest: set_takeWhileD)
  ultimately have "occurrences q ?y = occurrences q (rev (dropWhile is_space (rev ?y)))"
    using occ_append_space [OF q] by metis
  with occ_dropWhile_space [OF q, of x] show ?thesis by (simp add: strip_def)
qed


lemma dropWhile_hd: "xs \<noteq> [] \<Longrightarrow> \<not> P (hd xs) \<Longrightarrow> dropWhile P xs = xs"
  by (cases xs) auto

lemma strip_keeps_front:
  assumes "y \<noteq> []" "\<not> is_space (hd y)" "\<not> is_space (last y)"
  shows "prefix y (strip (y @ z))"
proof -
  from assms have front: "dropWhile is_space (y @ z) = y @ z" by (cases y) auto
  from assms have "rev y \<noteq> []" "\<not> is_space (hd (rev y))" by (simp_all add: hd_rev)
  then have rear: "dropWhile is_space (rev y) = rev y" by (rule dropWhile_hd)
  have "dropWhile is_space (rev z @ rev y)
      = (if \<forall>x\<in>set (rev z). is_space x then rev y else dropWhile is_space (rev z) @ rev y)"
    using rear by (simp add: dropWhile_append)
  then have "strip (y @ z)
      = (if \<forall>x\<in>set (rev z). is_space x then y else y @ rev (dropWhile is_space (rev z)))"
    using front by (simp add: strip_def)
  then show ?thesis by simp
qed

subsection \<open>C3: one occurrence of each injected flag\<close>

text \<open>
  C3 as stated: for every initial option string with an occurrence of an injected flag,
  the composed string has exactly one occurrence of that flag, the injected one. Taking a
  match out can join the text on its two sides into a new occurrence: in
  \<^verbatim>\<open>--debug=1 --deb--debugug\<close> the second match is the inner \<^verbatim>\<open>--debug\<close>, and what is left
  of that word is \<^verbatim>\<open>--debug\<close> again, so the composed string has the injected flag and an
  old one.
\<close>

theorem leftover_flag_counterexample:
  "occurrences ''--debug'' ''--debug=1 --deb--debugug'' = 2
   \<and> setFlags [''PASSWORD_STORE_GPG_OPTS'' \<mapsto> ''--debug=1 --deb--debugug''] REQUIRED_FLAGS
        ''PASSWORD_STORE_GPG_OPTS'' = Some ''--debug=ipc --status-fd=2  --debug''
   \<and> occurrences ''--debug'' ''--debug=ipc --status-fd=2  --debug'' = 2"
  by (simp add: setFlags_def env_get_def REQUIRED_FLAGS_def set_flag_def shlex_quote_required
      flag_match_def strip_def is_space_def)

text \<open>
  C3 (amended): for every initial option string in which each occurrence of
  \<^verbatim>\<open>--status-fd\<close> and of \<^verbatim>\<open>--debug\<close> begins a word (it stands at the start of the string or
  right after a white-space character), the composed option string begins with the
  injected flags and has exactly one occurrence of each of the two flags, the injected
  one.
\<close>

theorem injected_flag_once:
  assumes sf: "placed True ''--status-fd'' (env_get env ''PASSWORD_STORE_GPG_OPTS'' [])"
    and db: "placed True ''--debug'' (env_get env ''PASSWORD_STORE_GPG_OPTS'' [])"
  shows "\<exists>final. setFlags env REQUIRED_FLAGS ''PASSWORD_STORE_GPG_OPTS'' = Some final
     \<and> prefix ''--debug=ipc --status-fd=2'' final
     \<and> occurrences ''--debug'' final = 1
     \<and> occurrences ''--status-fd'' final = 1"
proof -
  define opts where "opts = env_get env ''PASSWORD_STORE_GPG_OPTS'' []"
  define R1 where "R1 = re_sub_flag ''status-fd'' opts"
  define R2 where "R2 = re_sub_flag ''debug'' R1"
  define final where "final = strip (''--debug=ipc --status-fd=2'' @ CHR '' '' # R2)"
  have wf: "ws_free ''status-fd''" "ws_free ''debug''" "ws_free ''--status-fd''" "ws_free ''--debug''"
    by (simp_all add: ws_free_def is_space_def)
  have s0: "sited True True (''--'' @ ''status-fd'') opts"
    using sf by (simp add: placed_sited opts_def)
  have d0: "sited True True ''--debug'' opts"
    using db by (simp add: placed_sited opts_def)
  have d1: "sited True True (''--'' @ ''debug'') R1"
    unfolding R1_def using sited_re_sub [OF wf(4) _ wf(1) s0, of True] d0 by simp
  have s1: "sited False True ''--status-fd'' R1"
    unfolding R1_def using re_sub_removes_all [OF wf(1) s0] by simp
  have d2: "sited False True ''--debug'' R2"
    unfolding R2_def using re_sub_removes_all [OF wf(2) d1] by simp
  have s2: "sited False True ''--status-fd'' R2"
    unfolding R2_def using sited_re_sub [OF wf(3) _ wf(2) d1, of False] s1 by simp
  have zd: "occurrences ''--debug'' R2 = 0" using d2 occ_sited [of "''--debug''" R2 True] by simp
  have zs: "occurrences ''--status-fd'' R2 = 0"
    using s2 occ_sited [of "''--status-fd''" R2 True] by simp
  have set: "setFlags env REQUIRED_FLAGS ''PASSWORD_STORE_GPG_OPTS'' = Some final"
    using re_sub_debug_skips_status
    by (simp add: setFlags_def REQUIRED_FLAGS_def set_flag_def shlex_quote_required
        final_def R2_def R1_def opts_def)
  have pre: "prefix ''--debug=ipc --status-fd=2'' final"
    unfolding final_def by (rule strip_keeps_front) (simp_all add: is_space_def)
  have od: "occurrences ''--debug'' final = 1"
    unfolding final_def using zd
    by (simp add: occ_strip [OF wf(4)] occ_split [OF wf(4)] is_space_def)
  have os: "occurrences ''--status-fd'' final = 1"
    unfolding final_def using zs
    by (simp add: occ_strip [OF wf(3)] occ_split [OF wf(3)] is_space_def)
  from set pre od os show ?thesis by blast
qed

theorem injected_flag_once_witness:
  "placed True ''--status-fd'' ''--status-fd 1 --armor --debug=all --debug''
   \<and> placed True ''--debug'' ''--status-fd 1 --armor --debug=all --debug''
   \<and> setFlags [''PASSWORD_STORE_GPG_OPTS'' \<mapsto> ''--status-fd 1 --armor --debug=all --debug'']
        REQUIRED_FLAGS ''PASSWORD_STORE_GPG_OPTS'' = Some ''--debug=ipc --status-fd=2  --armor''
   \<and> occurrences ''--debug'' ''--debug=ipc --status-fd=2  --armor'' = 1
   \<and> occurrences ''--status-fd'' ''--debug=ipc --status-fd=2  --armor'' = 1"
  using injected_flag_once [of "[''PASSWORD_STORE_GPG_OPTS'' \<mapsto> ''--status-fd 1 --armor --debug=all --debug'']"]
  by (simp add: env_get_def is_space_def setFlags_def REQUIRED_FLAGS_def set_flag_def
      shlex_quote_required flag_match_def strip_def)

section \<open>Properties of the command translator\<close>

subsection \<open>C7: the fallback to \<^verbatim>\<open>show\<close>\<close>




subsection \<open>C10: the empty key\<close>

text \<open>
  C10: the normalization of a key that is the empty string raises \<^verbatim>\<open>IndexError\<close>. So for
  the requests \<^verbatim>\<open>[""]\<close> and \<^verbatim>\<open>["otp", ""]\<close> the translator gives no invocation, and the
  program ends with the exception uncaught and nothing written to standard output,
  whatever the environment and the command would do. The last part is the whole program
  on the bytes of the framed message \<^verbatim>\<open>[""]\<close>.
\<close>

theorem empty_key_raises:
  "normalize_key (JStr '''') = Inl IndexError
   \<and> translate [JStr ''''] = Inl IndexError
   \<and> translate [JStr ''otp'', JStr ''''] = Inl IndexError
   \<and> serve bo (JArr [JStr '''']) environ home run = (Uncaught IndexError, [])
   \<and> serve bo (JArr [JStr ''otp'', JStr '''']) environ home run = (Uncaught IndexError, [])
   \<and> main LittleEndian [4, 0, 0, 0, 0x5B, 0x22, 0x22, 0x5D] environ home run
       = (Uncaught IndexError, [])"
proof -
  have t1: "translate [JStr ''''] = Inl IndexError"
    by (simp add: translate_def dispatch_def)
  have t2: "translate [JStr ''otp'', JStr ''''] = Inl IndexError"
    by (simp add: translate_def dispatch_def)
  have u: "unpack_I LittleEndian [4, 0, 0, 0] = Inr 4"
    by (simp add: unpack_I_def native_def)
  have d: "utf8_decode [0x5B, 0x22, 0x22, 0x5D] = Inr [CHR 0x5B, CHR 0x22, CHR 0x22, CHR 0x5D]"
    by code_simp
  have j: "json_loads [CHR 0x5B, CHR 0x22, CHR 0x22, CHR 0x5D] = Inr (JArr [JStr ''''])"
    by (simp add: json_loads_def skip_ws_def is_json_ws_def)
  have m: "main LittleEndian [4, 0, 0, 0, 0x5B, 0x22, 0x22, 0x5D] environ home run
       = (Uncaught IndexError, [])"
    by (simp add: main_def getMessage_def u d j serve_def t1 del: utf8_decode.simps)
  show ?thesis
    using t1 t2 m by (simp add: serve_def)
qed

section \<open>Properties of the framing codec\<close>

subsection \<open>C9: the end of the input\<close>

text \<open>
  C9: when standard input is at its end, the read of the length prefix gives no bytes,
  \<^verbatim>\<open>getMessage\<close> leaves through \<^verbatim>\<open>sys.exit(0)\<close>, and the program ends with status 0 and
  nothing written to standard output, whatever the byte order, the environment and the
  command.
\<close>

theorem eof_clean_exit:
  "getMessage bo [] = Exit 0 \<and> main bo [] environ home run = (Exited 0, [])"
  by (simp add: main_def getMessage_def)

end
